theory Spec2Isabelle
  imports Complex_Main
begin

section \<open>Python values used by the subtitle service\<close>

text \<open>
  The service is Python (\<open>services/subtitle_generator.py\<close>, \<open>app.py\<close>). Times are Python
  floats; they are modelled as real numbers, so every statement below is about exact
  arithmetic. Strings are lists of characters, a character standing for one code point
  below 256. An exception of the source is a value \<open>Inl e\<close> of the result.
\<close>

datatype py_error = TypeError | IndexError | OverflowError | OSError

text \<open>
  \<open>d.get(key, default)\<close> on a dict whose key may be absent.
\<close>

definition dict_get :: "'a option \<Rightarrow> 'a \<Rightarrow> 'a" where
  "dict_get v d = (case v of None \<Rightarrow> d | Some x \<Rightarrow> x)"

text \<open>
  \<open>xs[j]\<close>: a negative index counts from the end, an index out of range raises.
\<close>

definition py_index :: "'a list \<Rightarrow> int \<Rightarrow> py_error + 'a" where
  "py_index xs j =
     (let n = int (length xs); k = (if j < 0 then n + j else j)
      in if 0 \<le> k \<and> k < n then Inr (xs ! nat k) else Inl IndexError)"

text \<open>
  \<open>str.isspace\<close> on one character: the code points below 256 that Python counts as
  whitespace.
\<close>

definition py_isspace :: "char \<Rightarrow> bool" where
  "py_isspace c = (of_char c \<in> {9, 10, 11, 12, 13, 28, 29, 30, 31, 32, 133, 160 :: nat})"

text \<open>
  \<open>s.strip()\<close>: whitespace removed at both ends.
\<close>

definition py_strip :: "string \<Rightarrow> string" where
  "py_strip s = rev (dropWhile py_isspace (rev (dropWhile py_isspace s)))"

text \<open>
  \<open>sep.join(xs)\<close>.
\<close>

fun py_join :: "string \<Rightarrow> string list \<Rightarrow> string" where
  "py_join sep [] = []"
| "py_join sep [x] = x"
| "py_join sep (x # y # ys) = x @ sep @ py_join sep (y # ys)"

text \<open>
  \<open>int(x)\<close> on a float: truncation towards zero.
\<close>

definition py_int :: "real \<Rightarrow> int" where
  "py_int x = (if 0 \<le> x then \<lfloor>x\<rfloor> else \<lceil>x\<rceil>)"

text \<open>
  The decimal digit \<open>d\<close> as a character.
\<close>

definition digit_char :: "nat \<Rightarrow> char" where
  "digit_char d = ''0123456789'' ! d"

text \<open>
  \<open>str(n)\<close> for a non-negative integer.
\<close>

fun digits :: "nat \<Rightarrow> string" where
  "digits n = (if n < 10 then [digit_char n] else digits (n div 10) @ [digit_char (n mod 10)])"

text \<open>
  The format specification \<open>{x:0Nd}\<close> of an f-string: at least \<open>N\<close> characters, padded
  with zeros after the sign. A longer number is not cut.
\<close>

definition fmt_0d :: "nat \<Rightarrow> int \<Rightarrow> string" where
  "fmt_0d width x =
     (let ds = digits (nat \<bar>x\<bar>)
      in if x < 0 then CHR ''-'' # replicate (width - 1 - length ds) CHR ''0'' @ ds
         else replicate (width - length ds) CHR ''0'' @ ds)"

text \<open>
  Rounding to the nearest integer, a tie going to the even neighbour.
\<close>

definition round_half_even :: "real \<Rightarrow> int" where
  "round_half_even x =
     (let f = \<lfloor>x\<rfloor>; d = x - of_int f
      in if d < 1 / 2 then f else if 1 / 2 < d then f + 1 else if even f then f else f + 1)"

text \<open>
  \<open>datetime.timedelta(seconds=x)\<close>: the value is kept in whole microseconds, rounded half to
  even, and a magnitude beyond 999999999 days raises OverflowError. The result is the total
  number of microseconds.
\<close>

definition timedelta :: "real \<Rightarrow> py_error + int" where
  "timedelta seconds =
     (let us = round_half_even (seconds * 1000000); days = us div 86400000000
      in if days < - 999999999 \<or> 999999999 < days then Inl OverflowError else Inr us)"

text \<open>
  \<open>td.total_seconds()\<close>.
\<close>

definition td_total_seconds :: "int \<Rightarrow> real" where
  "td_total_seconds us = of_int us / 1000000"

section \<open>Words, lines and the settings of the generator\<close>

text \<open>
  A word dict of the recogniser, \<open>{word, start, end, conf}\<close>. A key may be absent, so each
  field is optional; a key that is present holds a value of the type the recogniser writes
  (a string, a number). \<open>conf\<close> is never read by the generator and is left out.
\<close>

record word_data =
  w_word :: "string option"
  w_start :: "real option"
  w_end :: "real option"

text \<open>
  A line dict \<open>{index, start, end, text}\<close>. The field \<open>l_words\<close> is not in the dict of the
  source: it keeps the buffer \<open>current_line\<close> whose join is \<open>text\<close>, so that a statement can
  speak of the words of a line.
\<close>

record line =
  l_index :: nat
  l_start :: real
  l_end :: real
  l_text :: string
  l_words :: "string list"

text \<open>
  The attributes set by \<open>SubtitleGenerator.__init__\<close>.
\<close>

record generator =
  words_per_line :: int
  min_line_duration :: real
  max_line_duration :: real
  pause_threshold :: real

text \<open>
  The defaults of \<open>__init__\<close>, which are also the values of \<open>config.py\<close>.
\<close>

definition default_generator :: generator where
  "default_generator =
     \<lparr>words_per_line = 8, min_line_duration = 1.5, max_line_duration = 7.0,
      pause_threshold = 0.7\<rparr>"

section \<open>segment\_into\_lines\<close>

text \<open>
  The three local variables the loop of \<open>segment_into_lines\<close> updates.
\<close>

record seg_state =
  lines :: "line list"
  current_line :: "string list"
  line_start :: "real option"

text \<open>
  \<open>prev_word and prev_word[-1] in '.!?'\<close>.
\<close>

definition ends_sentence :: "string \<Rightarrow> bool" where
  "ends_sentence prev_word = (prev_word \<noteq> [] \<and> last prev_word \<in> set ''.!?'')"

text \<open>
  One iteration of \<open>for i, word_data in enumerate(words)\<close>, in the order of the source:
  the blank word is skipped, the first word opens the buffer, then the four break checks
  (pause, word count, duration, punctuation) and the break or the append. \<open>words[i-1]\<close> is
  read by position, whatever that entry holds. \<open>end - line_start\<close> raises TypeError while
  \<open>line_start\<close> is still None. \<open>end\<close> is a keyword here, so the local variable is \<open>end_t\<close>.
\<close>

definition seg_step ::
  "generator \<Rightarrow> word_data list \<Rightarrow> seg_state \<Rightarrow> nat \<times> word_data \<Rightarrow> py_error + seg_state" where
  "seg_step g words st iw =
     (let i = fst iw; word_data = snd iw;
          word = dict_get (w_word word_data) [];
          start = dict_get (w_start word_data) 0;
          end_t = dict_get (w_end word_data) 0
      in if py_strip word = [] then Inr st
         else if current_line st = [] then
           Inr (st\<lparr>line_start := Some start, current_line := current_line st @ [word]\<rparr>)
         else
           (case (if 0 < i
                  then (case py_index words (int i - 1) of
                          Inl e \<Rightarrow> Inl e
                        | Inr p \<Rightarrow> Inr (pause_threshold g \<le> start - dict_get (w_end p) 0))
                  else Inr False) of
              Inl e \<Rightarrow> Inl e
            | Inr pause_break \<Rightarrow>
                (case line_start st of
                   None \<Rightarrow> Inl TypeError
                 | Some ls \<Rightarrow>
                     let should_break =
                           (pause_break
                            \<or> words_per_line g \<le> int (length (current_line st))
                            \<or> max_line_duration g \<le> end_t - ls
                            \<or> ends_sentence (if current_line st \<noteq> [] then last (current_line st)
                                               else []))
                     in if should_break \<and> current_line st \<noteq> [] then
                          (case py_index words (int i - 1) of
                             Inl e \<Rightarrow> Inl e
                           | Inr p \<Rightarrow>
                               Inr \<lparr>lines = lines st @
                                      [\<lparr>l_index = length (lines st) + 1, l_start = ls,
                                        l_end = dict_get (w_end p) (ls + 1),
                                        l_text = py_join '' '' (current_line st),
                                        l_words = current_line st\<rparr>],
                                    current_line = [word],
                                    line_start = Some start\<rparr>)
                        else Inr (st\<lparr>current_line := current_line st @ [word]\<rparr>))))"

text \<open>
  The loop: the iterations in order, stopping at the first exception.
\<close>

fun seg_loop ::
  "generator \<Rightarrow> word_data list \<Rightarrow> seg_state \<Rightarrow> (nat \<times> word_data) list \<Rightarrow> py_error + seg_state" where
  "seg_loop g words st [] = Inr st"
| "seg_loop g words st (iw # rest) =
     (case seg_step g words st iw of
        Inl e \<Rightarrow> Inl e
      | Inr st' \<Rightarrow> seg_loop g words st' rest)"

text \<open>
  \<open>Add remaining words as last line\<close>, after the loop.
\<close>

definition seg_flush :: "word_data list \<Rightarrow> seg_state \<Rightarrow> py_error + line list" where
  "seg_flush words st =
     (if current_line st \<noteq> [] then
        (case line_start st of
           None \<Rightarrow> Inl TypeError
         | Some ls \<Rightarrow>
             (case (if words \<noteq> []
                    then (case py_index words (- 1) of
                            Inl e \<Rightarrow> Inl e
                          | Inr p \<Rightarrow> Inr (dict_get (w_end p) (ls + 1)))
                    else Inr (ls + 1)) of
                Inl e \<Rightarrow> Inl e
              | Inr last_end \<Rightarrow>
                  Inr (lines st @
                       [\<lparr>l_index = length (lines st) + 1, l_start = ls, l_end = last_end,
                         l_text = py_join '' '' (current_line st),
                         l_words = current_line st\<rparr>])))
      else Inr (lines st))"

text \<open>
  \<open>lines = []\<close>, \<open>current_line = []\<close>, \<open>line_start = None\<close>.
\<close>

definition seg_init :: seg_state where
  "seg_init = \<lparr>lines = [], current_line = [], line_start = None\<rparr>"

definition segment_into_lines :: "generator \<Rightarrow> word_data list \<Rightarrow> py_error + line list" where
  "segment_into_lines g words =
     (if words = [] then Inr []
      else (case seg_loop g words seg_init (enumerate 0 words) of
              Inl e \<Rightarrow> Inl e
            | Inr st \<Rightarrow> seg_flush words st))"

section \<open>format\_timestamp\_srt and format\_timestamp\_vtt\<close>

text \<open>
  The two methods have the same body but for the character before the milliseconds. The
  whole seconds come from the \<open>timedelta\<close>, the milliseconds from the argument itself.
\<close>

definition format_timestamp_srt :: "real \<Rightarrow> py_error + string" where
  "format_timestamp_srt seconds =
     (case timedelta seconds of
        Inl e \<Rightarrow> Inl e
      | Inr td \<Rightarrow>
          let total_seconds = py_int (td_total_seconds td);
              hours = total_seconds div 3600;
              minutes = (total_seconds mod 3600) div 60;
              secs = total_seconds mod 60;
              millis = py_int ((seconds - of_int (py_int seconds)) * 1000)
          in Inr (fmt_0d 2 hours @ '':'' @ fmt_0d 2 minutes @ '':'' @ fmt_0d 2 secs @ '',''
                  @ fmt_0d 3 millis))"

definition format_timestamp_vtt :: "real \<Rightarrow> py_error + string" where
  "format_timestamp_vtt seconds =
     (case timedelta seconds of
        Inl e \<Rightarrow> Inl e
      | Inr td \<Rightarrow>
          let total_seconds = py_int (td_total_seconds td);
              hours = total_seconds div 3600;
              minutes = (total_seconds mod 3600) div 60;
              secs = total_seconds mod 60;
              millis = py_int ((seconds - of_int (py_int seconds)) * 1000)
          in Inr (fmt_0d 2 hours @ '':'' @ fmt_0d 2 minutes @ '':'' @ fmt_0d 2 secs @ ''.''
                  @ fmt_0d 3 millis))"

section \<open>The files the generator writes\<close>

text \<open>
  The values a metadata dict holds.
\<close>

datatype json_value = JInt int | JNum real | JStr string | JNull

text \<open>
  The dict \<open>generate_json\<close> returns: \<open>{'lines': ..., 'metadata': {...}}\<close>.
\<close>

record json_doc =
  doc_lines :: "line list"
  doc_metadata :: "string \<rightharpoonup> json_value"

text \<open>
  What a file holds: text, the JSON document written by \<open>json.dump\<close>, or uploaded media.
\<close>

datatype content = Text string | Json json_doc | Media string

text \<open>
  The files and directories on disk, and which paths the process may create, write or
  remove (\<open>writable\<close>); a path that is not writable makes \<open>os.makedirs\<close> and \<open>open\<close> raise.
\<close>

record filesystem =
  files :: "string \<rightharpoonup> content"
  dirs :: "string set"
  writable :: "string \<Rightarrow> bool"

text \<open>
  \<open>os.path.dirname\<close> on a POSIX path.
\<close>

definition py_dirname :: "string \<Rightarrow> string" where
  "py_dirname p =
     (let head = rev (dropWhile (\<lambda>c. c \<noteq> CHR ''/'') (rev p))
      in if list_all (\<lambda>c. c = CHR ''/'') head then head
         else rev (dropWhile (\<lambda>c. c = CHR ''/'') (rev head)))"

text \<open>
  \<open>os.path.join\<close> of two components on a POSIX path.
\<close>

definition path_join :: "string \<Rightarrow> string \<Rightarrow> string" where
  "path_join a b =
     (if b \<noteq> [] \<and> hd b = CHR ''/'' then b
      else if a = [] \<or> last a = CHR ''/'' then a @ b
      else a @ ''/'' @ b)"

text \<open>
  \<open>os.makedirs(d, exist_ok=True)\<close>; the empty path raises, as does a path that may not be
  created.
\<close>

definition makedirs :: "string \<Rightarrow> filesystem \<Rightarrow> py_error + filesystem" where
  "makedirs d fs =
     (if d = [] \<or> \<not> writable fs d then Inl OSError
      else Inr (fs\<lparr>dirs := insert d (dirs fs)\<rparr>))"

text \<open>
  \<open>str(e)\<close>: the name of the exception stands for its message.
\<close>

definition str_error :: "py_error \<Rightarrow> string" where
  "str_error e =
     (case e of TypeError \<Rightarrow> ''TypeError'' | IndexError \<Rightarrow> ''IndexError''
      | OverflowError \<Rightarrow> ''OverflowError'' | OSError \<Rightarrow> ''OSError'')"

text \<open>
  The loop of \<open>generate_srt\<close> over the lines, with the text written so far: the index is
  written before the timestamps are formatted, so a failing timestamp leaves the text up
  to that index in the file.
\<close>

fun srt_blocks :: "line list \<Rightarrow> string \<Rightarrow> string \<times> py_error option" where
  "srt_blocks [] written = (written, None)"
| "srt_blocks (l # rest) written =
     (let written1 = written @ digits (l_index l) @ ''\<newline>''
      in case format_timestamp_srt (l_start l) of
           Inl e \<Rightarrow> (written1, Some e)
         | Inr start_ts \<Rightarrow>
             (case format_timestamp_srt (l_end l) of
                Inl e \<Rightarrow> (written1, Some e)
              | Inr end_ts \<Rightarrow>
                  srt_blocks rest
                    (written1 @ start_ts @ '' --> '' @ end_ts @ ''\<newline>''
                     @ l_text l @ ''\<newline>'' @ ''\<newline>'')))"

text \<open>
  The loop of \<open>generate_vtt\<close>.
\<close>

fun vtt_blocks :: "line list \<Rightarrow> string \<Rightarrow> string \<times> py_error option" where
  "vtt_blocks [] written = (written, None)"
| "vtt_blocks (l # rest) written =
     (let written1 = written @ ''cue-'' @ digits (l_index l) @ ''\<newline>''
      in case format_timestamp_vtt (l_start l) of
           Inl e \<Rightarrow> (written1, Some e)
         | Inr start_ts \<Rightarrow>
             (case format_timestamp_vtt (l_end l) of
                Inl e \<Rightarrow> (written1, Some e)
              | Inr end_ts \<Rightarrow>
                  vtt_blocks rest
                    (written1 @ start_ts @ '' --> '' @ end_ts @ ''\<newline>''
                     @ l_text l @ ''\<newline>'' @ ''\<newline>'')))"

text \<open>
  \<open>generate_srt\<close>: every exception is caught and answered by False. The parameter
  \<open>lines\<close> of the source is written \<open>ls\<close> from here on.
\<close>

definition generate_srt :: "line list \<Rightarrow> string \<Rightarrow> filesystem \<Rightarrow> bool \<times> filesystem" where
  "generate_srt ls output_path fs =
     (case makedirs (py_dirname output_path) fs of
        Inl e \<Rightarrow> (False, fs)
      | Inr fs1 \<Rightarrow>
          if \<not> writable fs1 output_path then (False, fs1)
          else (case srt_blocks ls [] of
                  (written, err) \<Rightarrow>
                    (err = None, fs1\<lparr>files := (files fs1)(output_path \<mapsto> Text written)\<rparr>)))"

definition generate_vtt :: "line list \<Rightarrow> string \<Rightarrow> filesystem \<Rightarrow> bool \<times> filesystem" where
  "generate_vtt ls output_path fs =
     (case makedirs (py_dirname output_path) fs of
        Inl e \<Rightarrow> (False, fs)
      | Inr fs1 \<Rightarrow>
          if \<not> writable fs1 output_path then (False, fs1)
          else (case vtt_blocks ls (''WEBVTT'' @ ''\<newline>'' @ ''\<newline>'') of
                  (written, err) \<Rightarrow>
                    (err = None, fs1\<lparr>files := (files fs1)(output_path \<mapsto> Text written)\<rparr>)))"

text \<open>
  \<open>generate_json\<close>: the three computed entries come first and \<open>**(metadata or {})\<close> after
  them, so a later key replaces an earlier one.
\<close>

definition generate_json ::
  "line list \<Rightarrow> word_data list \<Rightarrow> (string \<rightharpoonup> json_value) option \<Rightarrow> json_doc" where
  "generate_json ls words metadata =
     (let total_duration =
            (if ls \<noteq> [] then l_end (last ls)
             else if words \<noteq> [] then dict_get (w_end (last words)) 0
             else 0)
      in \<lparr>doc_lines = ls,
          doc_metadata =
            [''total_lines'' \<mapsto> JInt (int (length ls)),
             ''total_words'' \<mapsto> JInt (int (length words)),
             ''duration'' \<mapsto> JNum total_duration]
            ++ dict_get metadata Map.empty\<rparr>)"

text \<open>
  The dict \<open>generate_all\<close> returns: the three paths, the JSON data and the line count on
  success, the error text otherwise.
\<close>

datatype gen_result =
  GenOk string string string json_doc nat
  | GenFailed string

text \<open>
  \<open>generate_all\<close>. The results of \<open>generate_srt\<close> and \<open>generate_vtt\<close> are not looked at; an
  exception of the segmentation or of \<open>open(json_path, 'w')\<close> is caught by the outer \<open>except\<close>.
\<close>

definition generate_all ::
  "generator \<Rightarrow> word_data list \<Rightarrow> string \<Rightarrow> string \<Rightarrow> (string \<rightharpoonup> json_value) option
   \<Rightarrow> filesystem \<Rightarrow> gen_result \<times> filesystem" where
  "generate_all g words output_dir filename_base metadata fs =
     (case segment_into_lines g words of
        Inl e \<Rightarrow> (GenFailed (str_error e), fs)
      | Inr ls \<Rightarrow>
          if ls = [] then (GenFailed ''No lines generated from transcription'', fs)
          else
            let srt_path = path_join output_dir (filename_base @ ''.srt'');
                vtt_path = path_join output_dir (filename_base @ ''.vtt'');
                fs1 = snd (generate_srt ls srt_path fs);
                fs2 = snd (generate_vtt ls vtt_path fs1);
                json_data = generate_json ls words metadata;
                json_path = path_join output_dir (filename_base @ ''.json'')
            in if \<not> writable fs2 json_path then (GenFailed (str_error OSError), fs2)
               else (GenOk srt_path vtt_path json_path json_data (length ls),
                     fs2\<lparr>files := (files fs2)(json_path \<mapsto> Json json_data)\<rparr>))"

section \<open>The two transcription handlers of app.py\<close>

text \<open>
  The handlers \<open>transcribe_upload\<close> and \<open>transcribe_from_url\<close> are modelled from the point
  where the request has been accepted: the ids are chosen, the media has been received and
  is written to \<open>upload_path\<close>. The transcoder and the recogniser are parameters. The state
  is the disk and the columns of the \<open>Subtitle\<close> row; \<open>stages\<close> records which collaborators
  were called, in order. An exception inside a handler (answered by a rollback and a 500) is
  not modelled.
\<close>

text \<open>
  The column \<open>status\<close> of \<open>models/database.py\<close>.
\<close>

datatype subtitle_status = Pending | Processing | Completed | Failed

datatype stage = Normalize | Recognize | Segment

text \<open>
  The dict \<open>convert_to_wav\<close> returns: the duration on success, the (optional) error text
  otherwise.
\<close>

datatype convert_result = ConvertOk "nat option" | ConvertFailed "string option"

text \<open>
  The dict \<open>transcribe\<close> returns: the words and the model name on success, the (optional)
  error text otherwise.
\<close>

datatype transcribe_result =
  TranscribeOk "word_data list" "string option"
  | TranscribeFailed "string option"

record collaborators =
  convert_to_wav :: "string \<Rightarrow> string \<Rightarrow> filesystem \<Rightarrow> convert_result \<times> filesystem"
  transcribe :: "string \<Rightarrow> filesystem \<Rightarrow> transcribe_result"

text \<open>
  \<open>UPLOAD_FOLDER\<close>, \<open>PROCESSED_FOLDER\<close> and \<open>SUBTITLES_FOLDER\<close> of \<open>config.py\<close>.
\<close>

record folders =
  upload_folder :: string
  processed_folder :: string
  subtitles_folder :: string

text \<open>
  What a handler has in hand once the request is accepted: the two generated ids, the
  file extension, the form fields and the media itself.
\<close>

record job =
  file_id :: string
  subtitle_id :: string
  file_ext :: string
  media_id :: "string option"
  language :: string
  payload :: string

record job_state =
  disk :: filesystem
  status :: subtitle_status
  error_message :: "string option"
  stages :: "stage list"
  subtitle_path :: "string option"
  vtt_path :: "string option"
  text_json :: "json_doc option"

record response =
  http_status :: nat
  success :: bool
  error :: "string option"

text \<open>
  \<open>AudioProcessor.cleanup\<close>: each path that is non-empty and exists is removed; a
  removal that fails is logged and the file stays.
\<close>

definition cleanup :: "string list \<Rightarrow> filesystem \<Rightarrow> filesystem" where
  "cleanup paths fs =
     fs\<lparr>files := (\<lambda>p. if p \<in> set paths \<and> p \<noteq> [] \<and> writable fs p then None else files fs p)\<rparr>"

text \<open>
  The metadata dict both handlers pass to \<open>generate_all\<close>.
\<close>

definition job_metadata :: "job \<Rightarrow> string option \<Rightarrow> (string \<rightharpoonup> json_value)" where
  "job_metadata j model =
     [''language'' \<mapsto> JStr (language j),
      ''model'' \<mapsto> JStr (dict_get model ''vosk''),
      ''file_id'' \<mapsto> JStr (file_id j),
      ''media_id'' \<mapsto> (case media_id j of None \<Rightarrow> JNull | Some m \<Rightarrow> JStr m)]"

text \<open>
  The three assignments every failure branch makes: \<open>status = 'failed'\<close>, the error
  message, and the 500 response.
\<close>

definition failed_with :: "string \<Rightarrow> string option \<Rightarrow> job_state \<Rightarrow> response \<times> job_state" where
  "failed_with what message st =
     (\<lparr>http_status = 500, success = False, error = Some what\<rparr>,
      st\<lparr>status := Failed, error_message := message\<rparr>)"

text \<open>
  \<open>transcribe_upload\<close>, lines 232 to 344. Its failure branches return without a call of
  \<open>cleanup\<close>.
\<close>

definition transcribe_upload ::
  "collaborators \<Rightarrow> folders \<Rightarrow> generator \<Rightarrow> job \<Rightarrow> job_state \<Rightarrow> response \<times> job_state" where
  "transcribe_upload c cfg g j st0 =
     (let upload_path = path_join (upload_folder cfg) (file_id j @ ''.'' @ file_ext j);
          st1 = st0\<lparr>disk := (disk st0)\<lparr>files := (files (disk st0))(upload_path \<mapsto> Media (payload j))\<rparr>,
                    status := Processing\<rparr>;
          wav_path = path_join (processed_folder cfg) (file_id j @ ''.wav'');
          conv = convert_to_wav c upload_path wav_path (disk st1);
          st2 = st1\<lparr>disk := snd conv, stages := stages st1 @ [Normalize]\<rparr>
      in case fst conv of
           ConvertFailed err \<Rightarrow>
             failed_with ''Conversion failed'' (Some (dict_get err ''Conversion failed'')) st2
         | ConvertOk duration \<Rightarrow>
             let st3 = st2\<lparr>stages := stages st2 @ [Recognize]\<rparr>
             in case transcribe c wav_path (disk st3) of
                  TranscribeFailed err \<Rightarrow>
                    failed_with ''Transcription failed''
                      (Some (dict_get err ''Transcription failed'')) st3
                | TranscribeOk words model \<Rightarrow>
                    let gen = generate_all g words (subtitles_folder cfg) (subtitle_id j)
                                (Some (job_metadata j model)) (disk st3);
                        st4 = st3\<lparr>disk := snd gen, stages := stages st3 @ [Segment]\<rparr>
                    in case fst gen of
                         GenFailed err \<Rightarrow>
                           failed_with ''Subtitle generation failed'' (Some err) st4
                       | GenOk srt_p vtt_p json_p json_data n \<Rightarrow>
                           (\<lparr>http_status = 200, success = True, error = None\<rparr>,
                            st4\<lparr>status := Completed, subtitle_path := Some srt_p,
                                 vtt_path := Some vtt_p, text_json := Some json_data,
                                 disk := cleanup [upload_path, wav_path] (disk st4)\<rparr>))"

text \<open>
  \<open>transcribe_from_url\<close>, lines 404 to 524. Each failure branch calls \<open>cleanup\<close> before it
  returns.
\<close>

definition transcribe_from_url ::
  "collaborators \<Rightarrow> folders \<Rightarrow> generator \<Rightarrow> string \<Rightarrow> job \<Rightarrow> job_state \<Rightarrow> response \<times> job_state" where
  "transcribe_from_url c cfg g file_url j st0 =
     (let upload_path = path_join (upload_folder cfg) (file_id j @ ''.'' @ file_ext j);
          st1 = st0\<lparr>disk := (disk st0)\<lparr>files := (files (disk st0))(upload_path \<mapsto> Media (payload j))\<rparr>,
                    status := Processing\<rparr>;
          wav_path = path_join (processed_folder cfg) (file_id j @ ''.wav'');
          conv = convert_to_wav c upload_path wav_path (disk st1);
          st2 = st1\<lparr>disk := snd conv, stages := stages st1 @ [Normalize]\<rparr>
      in case fst conv of
           ConvertFailed err \<Rightarrow>
             (case failed_with ''Conversion failed'' (Some (dict_get err ''Conversion failed'')) st2 of
                (r, st) \<Rightarrow> (r, st\<lparr>disk := cleanup [upload_path] (disk st)\<rparr>))
         | ConvertOk duration \<Rightarrow>
             let st3 = st2\<lparr>stages := stages st2 @ [Recognize]\<rparr>
             in case transcribe c wav_path (disk st3) of
                  TranscribeFailed err \<Rightarrow>
                    (case failed_with ''Transcription failed''
                            (Some (dict_get err ''Transcription failed'')) st3 of
                       (r, st) \<Rightarrow> (r, st\<lparr>disk := cleanup [upload_path, wav_path] (disk st)\<rparr>))
                | TranscribeOk words model \<Rightarrow>
                    let gen = generate_all g words (subtitles_folder cfg) (subtitle_id j)
                                (Some ((job_metadata j model)(''source_url'' \<mapsto> JStr file_url)))
                                (disk st3);
                        st4 = st3\<lparr>disk := snd gen, stages := stages st3 @ [Segment]\<rparr>
                    in case fst gen of
                         GenFailed err \<Rightarrow>
                           (case failed_with ''Subtitle generation failed'' (Some err) st4 of
                              (r, st) \<Rightarrow>
                                (r, st\<lparr>disk := cleanup [upload_path, wav_path] (disk st)\<rparr>))
                       | GenOk srt_p vtt_p json_p json_data n \<Rightarrow>
                           (\<lparr>http_status = 200, success = True, error = None\<rparr>,
                            st4\<lparr>status := Completed, subtitle_path := Some srt_p,
                                 vtt_path := Some vtt_p, text_json := Some json_data,
                                 disk := cleanup [upload_path, wav_path] (disk st4)\<rparr>))"

section \<open>Notions of the statements\<close>

text \<open>
  The three fields of a word dict as the loop reads them, with their defaults.
\<close>

definition wd_text :: "word_data \<Rightarrow> string" where
  "wd_text wd = dict_get (w_word wd) []"

definition wd_start :: "word_data \<Rightarrow> real" where
  "wd_start wd = dict_get (w_start wd) 0"

definition wd_end :: "word_data \<Rightarrow> real" where
  "wd_end wd = dict_get (w_end wd) 0"

text \<open>
  A word the loop skips, and the words it keeps.
\<close>

definition is_blank :: "word_data \<Rightarrow> bool" where
  "is_blank wd = (py_strip (wd_text wd) = [])"

definition included :: "word_data list \<Rightarrow> word_data list" where
  "included ws = filter (\<lambda>wd. \<not> is_blank wd) ws"

text \<open>
  A word dict with all three keys, as the recogniser writes it.
\<close>

definition mk_word :: "string \<Rightarrow> real \<Rightarrow> real \<Rightarrow> word_data" where
  "mk_word w s e = \<lparr>w_word = Some w, w_start = Some s, w_end = Some e\<rparr>"

text \<open>
  The positions, counted in kept words, at which a line of \<open>ls\<close> starts or the last line
  ends: \<open>0\<close>, the size of the first line, the size of the first two, and so on.
\<close>

fun bounds_from :: "nat \<Rightarrow> line list \<Rightarrow> nat list" where
  "bounds_from n [] = [n]"
| "bounds_from n (l # ls) = n # bounds_from (n + length (l_words l)) ls"

definition line_bounds :: "line list \<Rightarrow> nat list" where
  "line_bounds ls = bounds_from 0 ls"

text \<open>
  The kept words of each line: the kept words of the input cut into consecutive groups of
  the sizes of the lines.
\<close>

fun chunks :: "nat list \<Rightarrow> 'a list \<Rightarrow> 'a list list" where
  "chunks [] xs = []"
| "chunks (n # ns) xs = take n xs # chunks ns (drop n xs)"

definition line_sizes :: "line list \<Rightarrow> nat list" where
  "line_sizes ls = map (length \<circ> l_words) ls"

definition line_words :: "line list \<Rightarrow> word_data list \<Rightarrow> word_data list list" where
  "line_words ls ws = chunks (line_sizes ls) (included ws)"





text \<open>
  A word that is not blank and carries its end time.
\<close>

definition spoken :: "word_data \<Rightarrow> bool" where
  "spoken wd = (\<not> is_blank wd \<and> w_end wd \<noteq> None)"













text \<open>
  The duration \<open>generate_json\<close> computes: the end of the last line, or the end of the last
  word if there is no line, or 0.
\<close>

definition computed_duration :: "line list \<Rightarrow> word_data list \<Rightarrow> real" where
  "computed_duration ls ws =
     (if ls \<noteq> [] then l_end (last ls) else if ws \<noteq> [] then wd_end (last ws) else 0)"

text \<open>
  The two paths both handlers build, and the disk once the media is written to
  \<open>upload_path\<close>.
\<close>

definition upload_path_of :: "folders \<Rightarrow> job \<Rightarrow> string" where
  "upload_path_of cfg j = path_join (upload_folder cfg) (file_id j @ ''.'' @ file_ext j)"

definition wav_path_of :: "folders \<Rightarrow> job \<Rightarrow> string" where
  "wav_path_of cfg j = path_join (processed_folder cfg) (file_id j @ ''.wav'')"

definition saved_upload :: "folders \<Rightarrow> job \<Rightarrow> job_state \<Rightarrow> filesystem" where
  "saved_upload cfg j st0 =
     (disk st0)\<lparr>files := (files (disk st0))(upload_path_of cfg j \<mapsto> Media (payload j))\<rparr>"

subsection \<open>Concrete inputs\<close>

definition see_you_soon :: "word_data list" where
  "see_you_soon = [mk_word ''see'' 0.0 0.5, mk_word ''you'' 0.6 0.9, mk_word ''soon'' 2.0 2.4]"







definition short_talk :: "word_data list" where
  "short_talk = [mk_word ''so'' 0 0.3, mk_word ''long.'' 0.4 0.9, mk_word ''bye'' 1 1.4]"


definition only_blank :: "word_data list" where
  "only_blank = [mk_word '' '' 0 1, \<lparr>w_word = None, w_start = Some 1, w_end = Some 2\<rparr>]"

definition caller_metadata :: "string \<rightharpoonup> json_value" where
  "caller_metadata = [''total_lines'' \<mapsto> JInt 99, ''language'' \<mapsto> JStr ''en'']"

text \<open>
  An empty disk on which every path may be written.
\<close>

definition open_fs :: filesystem where
  "open_fs = \<lparr>files = Map.empty, dirs = {}, writable = (\<lambda>p. True)\<rparr>"

definition new_job_state :: job_state where
  "new_job_state =
     \<lparr>disk = open_fs, status = Pending, error_message = None, stages = [],
      subtitle_path = None, vtt_path = None, text_json = None\<rparr>"

text \<open>
  A transcoder that fails on every input and leaves the disk as it is.
\<close>

definition broken_transcoder :: collaborators where
  "broken_transcoder =
     \<lparr>convert_to_wav = (\<lambda>input output fs. (ConvertFailed (Some ''Invalid data found''), fs)),
      transcribe = (\<lambda>wav fs. TranscribeOk [] None)\<rparr>"

definition app_folders :: folders where
  "app_folders =
     \<lparr>upload_folder = ''uploads'', processed_folder = ''processed'',
      subtitles_folder = ''subtitles''\<rparr>"

definition sample_job :: job where
  "sample_job =
     \<lparr>file_id = ''f1'', subtitle_id = ''s1'', file_ext = ''mp3'', media_id = None,
      language = ''en'', payload = ''not audio''\<rparr>"

section \<open>Notions of the proofs\<close>

text \<open>
  The dict appended to \<open>lines\<close> when a line is closed.
\<close>

definition mk_line :: "nat \<Rightarrow> real \<Rightarrow> real \<Rightarrow> string list \<Rightarrow> line" where
  "mk_line n s e cl =
     \<lparr>l_index = n + 1, l_start = s, l_end = e, l_text = py_join '' '' cl, l_words = cl\<rparr>"

text \<open>
  The value of \<open>should_break\<close>.
\<close>

definition break_here ::
  "generator \<Rightarrow> word_data list \<Rightarrow> string list \<Rightarrow> real \<Rightarrow> nat \<Rightarrow> word_data \<Rightarrow> bool" where
  "break_here g ws cl ls i wd =
     ((0 < i \<and> pause_threshold g \<le> wd_start wd - wd_end (ws ! (i - 1)))
      \<or> words_per_line g \<le> int (length cl)
      \<or> max_line_duration g \<le> wd_end wd - ls
      \<or> ends_sentence (last cl))"

text \<open>
  The state after the first \<open>k\<close> iterations.
\<close>

definition run :: "generator \<Rightarrow> word_data list \<Rightarrow> nat \<Rightarrow> py_error + seg_state" where
  "run g ws k = seg_loop g ws seg_init (take k (enumerate 0 ws))"

text \<open>
  \<open>line_start\<close> is set as soon as the buffer holds a word.
\<close>

definition st_ok :: "seg_state \<Rightarrow> bool" where
  "st_ok st = (current_line st = [] \<or> line_start st \<noteq> None)"

text \<open>
  The invariant of the loop: the word groups of the closed lines followed by the buffer
  are the kept words read so far; no closed line is empty, each text is the join of its
  group, the indices count from 1, and a line is closed only while the buffer holds a word.
\<close>

definition inv_groups :: "word_data list \<Rightarrow> nat \<Rightarrow> seg_state \<Rightarrow> bool" where
  "inv_groups ws k st =
     (concat (map l_words (lines st)) @ current_line st = map wd_text (included (take k ws))
      \<and> [] \<notin> set (map l_words (lines st))
      \<and> map l_text (lines st) = map (py_join '' '') (map l_words (lines st))
      \<and> map l_index (lines st) = [1..<Suc (length (lines st))]
      \<and> (current_line st = [] \<longrightarrow> lines st = [])
      \<and> (current_line st \<noteq> [] \<longrightarrow> 0 < k))"

text \<open>
  The list the function returns from the state the loop ends in.
\<close>

definition final_lines :: "word_data list \<Rightarrow> seg_state \<Rightarrow> line list" where
  "final_lines ws st =
     lines st @
     (if current_line st = [] then []
      else [mk_line (length (lines st)) (the (line_start st))
              (dict_get (w_end (last ws)) (the (line_start st) + 1)) (current_line st)])"




definition inv_start :: "word_data list \<Rightarrow> nat \<Rightarrow> seg_state \<Rightarrow> bool" where
  "inv_start ws k st =
     (inv_groups ws k st
      \<and> map l_start (lines st)
          = map (wd_start \<circ> hd) (chunks (line_sizes (lines st)) (included (take k ws)))
      \<and> (current_line st = []
          \<or> line_start st
              = Some (wd_start (included (take k ws) ! sum_list (line_sizes (lines st))))))"

definition inv_end :: "word_data list \<Rightarrow> nat \<Rightarrow> seg_state \<Rightarrow> bool" where
  "inv_end ws k st =
     (inv_groups ws k st
      \<and> map l_end (lines st)
          = map (wd_end \<circ> last) (chunks (line_sizes (lines st)) (take k ws)))"


section \<open>The loop of segment\_into\_lines\<close>

lemma segment_into_lines_empty: "segment_into_lines g [] = Inr []"
  by (simp add: segment_into_lines_def)

lemma py_index_prev:
  "0 < i \<Longrightarrow> i \<le> length ws \<Longrightarrow> py_index ws (int i - 1) = Inr (ws ! (i - 1))"
  by (auto simp: py_index_def Let_def nat_diff_distrib')

lemma py_index_last: "ws \<noteq> [] \<Longrightarrow> py_index ws (- 1) = Inr (last ws)"
  by (cases ws rule: rev_cases) (auto simp: py_index_def Let_def nth_append)

lemma seg_loop_append:
  "seg_loop g ws st (xs @ ys) =
     (case seg_loop g ws st xs of Inl e \<Rightarrow> Inl e | Inr st' \<Rightarrow> seg_loop g ws st' ys)"
  by (induction xs arbitrary: st) (auto split: sum.splits)

lemma take_Suc_enumerate:
  "k < length ws \<Longrightarrow> take (Suc k) (enumerate 0 ws) = take k (enumerate 0 ws) @ [(k, ws ! k)]"
  by (simp add: take_Suc_conv_app_nth nth_enumerate_eq)

lemma run_0: "run g ws 0 = Inr seg_init"
  by (simp add: run_def)

lemma run_Suc:
  "k < length ws \<Longrightarrow>
   run g ws (Suc k) = (case run g ws k of Inl e \<Rightarrow> Inl e | Inr st \<Rightarrow> seg_step g ws st (k, ws ! k))"
  by (simp add: run_def take_Suc_enumerate seg_loop_append split: sum.splits)

lemma run_all: "run g ws (length ws) = seg_loop g ws seg_init (enumerate 0 ws)"
  by (simp add: run_def)

lemma seg_step_cases [consumes 2]:
  assumes "i < length ws" and "st_ok st"
  obtains
    (skip) "is_blank wd" "seg_step g ws st (i, wd) = Inr st"
  | (first) "\<not> is_blank wd" "current_line st = []"
      "seg_step g ws st (i, wd) =
         Inr (st\<lparr>line_start := Some (wd_start wd), current_line := [wd_text wd]\<rparr>)"
  | (break) ls where "\<not> is_blank wd" "current_line st \<noteq> []" "line_start st = Some ls"
      "break_here g ws (current_line st) ls i wd" "0 < i"
      "seg_step g ws st (i, wd) =
         Inr \<lparr>lines = lines st @
                 [mk_line (length (lines st)) ls (dict_get (w_end (ws ! (i - 1))) (ls + 1))
                    (current_line st)],
              current_line = [wd_text wd], line_start = Some (wd_start wd)\<rparr>"
  | (break0) ls where "\<not> is_blank wd" "current_line st \<noteq> []" "line_start st = Some ls"
      "break_here g ws (current_line st) ls i wd" "i = 0"
      "seg_step g ws st (i, wd) =
         Inr \<lparr>lines = lines st @
                 [mk_line (length (lines st)) ls (dict_get (w_end (last ws)) (ls + 1))
                    (current_line st)],
              current_line = [wd_text wd], line_start = Some (wd_start wd)\<rparr>"
  | (app) ls where "\<not> is_blank wd" "current_line st \<noteq> []" "line_start st = Some ls"
      "\<not> break_here g ws (current_line st) ls i wd"
      "seg_step g ws st (i, wd) = Inr (st\<lparr>current_line := current_line st @ [wd_text wd]\<rparr>)"
proof (cases "is_blank wd")
  case True
  then have "seg_step g ws st (i, wd) = Inr st"
    by (simp add: seg_step_def is_blank_def wd_text_def Let_def)
  with True show ?thesis by (rule skip)
next
  case nb: False
  show ?thesis
  proof (cases "current_line st = []")
    case True
    with nb have "seg_step g ws st (i, wd) =
         Inr (st\<lparr>line_start := Some (wd_start wd), current_line := [wd_text wd]\<rparr>)"
      by (simp add: seg_step_def is_blank_def wd_text_def wd_start_def Let_def)
    with nb True show ?thesis by (rule first)
  next
    case ne: False
    with assms(2) obtain ls where ls: "line_start st = Some ls"
      by (auto simp: st_ok_def)
    from assms(1) have wne: "ws \<noteq> []" by auto
    show ?thesis
    proof (cases "break_here g ws (current_line st) ls i wd")
      case True
      show ?thesis
      proof (cases "0 < i")
        case ipos: True
        with assms(1) have ix: "py_index ws (int i - 1) = Inr (ws ! (i - 1))"
          by (simp add: py_index_prev)
        from nb ne ls True ipos ix have
          "seg_step g ws st (i, wd) =
             Inr \<lparr>lines = lines st @
                 [mk_line (length (lines st)) ls (dict_get (w_end (ws ! (i - 1))) (ls + 1))
                    (current_line st)],
              current_line = [wd_text wd], line_start = Some (wd_start wd)\<rparr>"
          by (simp add: seg_step_def is_blank_def wd_text_def wd_start_def wd_end_def Let_def
              break_here_def mk_line_def)
        with nb ne ls True ipos show ?thesis by (rule break)
      next
        case i0: False
        then have i0': "i = 0" by simp
        from wne have ix: "py_index ws (- 1) = Inr (last ws)" by (rule py_index_last)
        from nb ne ls True i0' ix have
          "seg_step g ws st (i, wd) =
             Inr \<lparr>lines = lines st @
                 [mk_line (length (lines st)) ls (dict_get (w_end (last ws)) (ls + 1))
                    (current_line st)],
              current_line = [wd_text wd], line_start = Some (wd_start wd)\<rparr>"
          by (simp add: seg_step_def is_blank_def wd_text_def wd_start_def wd_end_def Let_def
              break_here_def mk_line_def)
        with nb ne ls True i0' show ?thesis by (rule break0)
      qed
    next
      case nobrk: False
      have "seg_step g ws st (i, wd) = Inr (st\<lparr>current_line := current_line st @ [wd_text wd]\<rparr>)"
      proof (cases "0 < i")
        case ipos: True
        with assms(1) have ix: "py_index ws (int i - 1) = Inr (ws ! (i - 1))"
          by (simp add: py_index_prev)
        from nb ne ls nobrk ipos ix show ?thesis
          by (simp add: seg_step_def is_blank_def wd_text_def wd_start_def wd_end_def Let_def
              break_here_def)
      next
        case False
        with nb ne ls nobrk show ?thesis
          by (simp add: seg_step_def is_blank_def wd_text_def wd_start_def wd_end_def Let_def
              break_here_def)
      qed
      with nb ne ls nobrk show ?thesis by (rule app)
    qed
  qed
qed

lemma run_ok: "k \<le> length ws \<Longrightarrow> \<exists>st. run g ws k = Inr st \<and> st_ok st"
proof (induction k)
  case 0
  show ?case by (simp add: run_0 seg_init_def st_ok_def)
next
  case (Suc k)
  then obtain st where st: "run g ws k = Inr st" "st_ok st" by auto
  from Suc.prems have k: "k < length ws" by simp
  from k st(2) show ?case
  proof (cases rule: seg_step_cases [where g = g and wd = "ws ! k"])
    case skip
    with st k show ?thesis by (simp add: run_Suc)
  next
    case first
    with st k show ?thesis by (simp add: run_Suc st_ok_def)
  next
    case (break ls)
    with st k show ?thesis by (simp add: run_Suc st_ok_def)
  next
    case (break0 ls)
    with st k show ?thesis by (simp add: run_Suc st_ok_def)
  next
    case (app ls)
    with st k show ?thesis by (simp add: run_Suc st_ok_def)
  qed
qed

lemma run_induct:
  assumes k: "k \<le> length ws"
    and base: "P 0 seg_init"
    and step: "\<And>j st st'. j < length ws \<Longrightarrow> run g ws j = Inr st \<Longrightarrow> st_ok st \<Longrightarrow> P j st \<Longrightarrow>
                 seg_step g ws st (j, ws ! j) = Inr st' \<Longrightarrow> P (Suc j) st'"
  shows "\<exists>st. run g ws k = Inr st \<and> P k st"
  using k
proof (induction k)
  case 0
  show ?case using base by (simp add: run_0)
next
  case (Suc k)
  then obtain st where st: "run g ws k = Inr st" "P k st" by auto
  from Suc.prems have k: "k < length ws" by simp
  from run_ok [of k ws g] k st(1) have ok: "st_ok st" by auto
  from run_ok [of "Suc k" ws g] Suc.prems obtain st' where st': "run g ws (Suc k) = Inr st'"
    by auto
  with st(1) k have "seg_step g ws st (k, ws ! k) = Inr st'" by (simp add: run_Suc)
  from step [OF k st(1) ok st(2) this] st' show ?case by simp
qed

lemma included_take_Suc:
  "k < length ws \<Longrightarrow>
   included (take (Suc k) ws) = included (take k ws) @ (if is_blank (ws ! k) then [] else [ws ! k])"
  by (simp add: included_def take_Suc_conv_app_nth)

lemma run_inv_groups:
  assumes "k \<le> length ws"
  shows "\<exists>st. run g ws k = Inr st \<and> inv_groups ws k st"
  using assms
proof (rule run_induct)
  show "inv_groups ws 0 seg_init"
    by (simp add: inv_groups_def seg_init_def included_def)
next
  fix j st st'
  assume j: "j < length ws" and ok: "st_ok st" and inv: "inv_groups ws j st"
    and step: "seg_step g ws st (j, ws ! j) = Inr st'"
  from j ok show "inv_groups ws (Suc j) st'"
  proof (cases rule: seg_step_cases [where g = g and wd = "ws ! j"])
    case skip
    with step inv j show ?thesis
      by (auto simp: inv_groups_def included_take_Suc)
  next
    case first
    with step inv j show ?thesis
      by (auto simp: inv_groups_def included_take_Suc)
  next
    case (break ls)
    with step inv j show ?thesis
      by (auto simp: inv_groups_def included_take_Suc mk_line_def)
  next
    case (break0 ls)
    with step inv j show ?thesis
      by (auto simp: inv_groups_def included_take_Suc mk_line_def)
  next
    case (app ls)
    with step inv j show ?thesis
      by (auto simp: inv_groups_def included_take_Suc)
  qed
qed

lemma segment_result:
  assumes "ws \<noteq> []" and "run g ws (length ws) = Inr st" and "st_ok st"
  shows "segment_into_lines g ws = Inr (final_lines ws st)"
  using assms
  by (auto simp: segment_into_lines_def run_all seg_flush_def final_lines_def st_ok_def
      py_index_last mk_line_def)

lemma py_join_Cons: "py_join sep (x # xs) = (if xs = [] then x else x @ sep @ py_join sep xs)"
  by (cases xs) simp_all

lemma py_join_append:
  "xs \<noteq> [] \<Longrightarrow> ys \<noteq> [] \<Longrightarrow> py_join sep (xs @ ys) = py_join sep xs @ sep @ py_join sep ys"
  by (induction xs) (auto simp: py_join_Cons)

lemma py_join_groups:
  "[] \<notin> set gs \<Longrightarrow> py_join sep (map (py_join sep) gs) = py_join sep (concat gs)"
proof (induction gs)
  case Nil
  show ?case by simp
next
  case (Cons g gs)
  show ?case
  proof (cases "gs = []")
    case True
    then show ?thesis by simp
  next
    case False
    with Cons.prems have "concat gs \<noteq> []" and "g \<noteq> []"
      by (cases gs; auto)+
    with Cons False show ?thesis
      by (simp add: py_join_Cons py_join_append)
  qed
qed

lemma final_lines_groups:
  assumes "inv_groups ws (length ws) st"
  shows "concat (map l_words (final_lines ws st)) = map wd_text (included ws)"
    and "[] \<notin> set (map l_words (final_lines ws st))"
    and "map l_text (final_lines ws st) = map (py_join '' '') (map l_words (final_lines ws st))"
    and "map l_index (final_lines ws st) = [1..<Suc (length (final_lines ws st))]"
  using assms by (auto simp: inv_groups_def final_lines_def mk_line_def)

lemma segment_total_groups:
  "\<exists>ls. segment_into_lines g ws = Inr ls
      \<and> concat (map l_words ls) = map wd_text (included ws)
      \<and> [] \<notin> set (map l_words ls)
      \<and> map l_text ls = map (py_join '' '') (map l_words ls)
      \<and> map l_index ls = [1..<Suc (length ls)]"
proof (cases "ws = []")
  case True
  then show ?thesis by (simp add: segment_into_lines_def included_def)
next
  case False
  from run_inv_groups [of "length ws" ws g] obtain st
    where st: "run g ws (length ws) = Inr st" "inv_groups ws (length ws) st" by auto
  from run_ok [of "length ws" ws g] st(1) have ok: "st_ok st" by auto
  from segment_result [OF False st(1) ok] final_lines_groups [OF st(2)]
  show ?thesis by blast
qed

text \<open>
  Claim C1. For every input, \<open>segment_into_lines\<close> returns lines whose words, taken line
  after line, are exactly the non-blank input words in their order: the line texts are the
  joins of these word groups, the texts joined by a space spell the non-blank words joined
  by a space, and the word counts of the lines add up to the number of non-blank words.
\<close>

theorem segment_keeps_every_word:
  "\<exists>ls. segment_into_lines g ws = Inr ls
      \<and> concat (map l_words ls) = map wd_text (included ws)
      \<and> map l_text ls = map (py_join '' '') (map l_words ls)
      \<and> py_join '' '' (map l_text ls) = py_join '' '' (map wd_text (included ws))
      \<and> sum_list (map (length \<circ> l_words) ls) = length (included ws)"
proof -
  from segment_total_groups [of g ws] obtain ls where ls:
    "segment_into_lines g ws = Inr ls"
    "concat (map l_words ls) = map wd_text (included ws)"
    "[] \<notin> set (map l_words ls)"
    "map l_text ls = map (py_join '' '') (map l_words ls)"
    by blast
  have "py_join '' '' (map l_text ls) = py_join '' '' (map (py_join '' '') (map l_words ls))"
    by (simp only: ls(4))
  also have "\<dots> = py_join '' '' (concat (map l_words ls))"
    by (rule py_join_groups [OF ls(3)])
  also have "\<dots> = py_join '' '' (map wd_text (included ws))"
    by (simp only: ls(2))
  finally have j: "py_join '' '' (map l_text ls) = py_join '' '' (map wd_text (included ws))" .
  have "length (concat (map l_words ls)) = sum_list (map (length \<circ> l_words) ls)"
    by (simp add: length_concat comp_def)
  with ls(2) have "sum_list (map (length \<circ> l_words) ls) = length (included ws)"
    by (metis length_map)
  with ls j show ?thesis by blast
qed

section \<open>A pause and the line break\<close>





lemma inv_groups_count:
  assumes "inv_groups ws k st"
  shows "sum_list (map (length \<circ> l_words) (lines st)) + length (current_line st)
           = length (included (take k ws))"
proof -
  from assms have "length (concat (map l_words (lines st)) @ current_line st)
      = length (map wd_text (included (take k ws)))"
    by (simp only: inv_groups_def)
  then show ?thesis by (simp add: length_concat comp_def)
qed




lemmas seg_eval = segment_into_lines_def seg_init_def seg_step_def seg_flush_def
  py_index_def py_strip_def py_isspace_def dict_get_def ends_sentence_def mk_word_def
  default_generator_def Let_def

lemmas stmt_eval = included_def is_blank_def wd_text_def wd_start_def wd_end_def line_bounds_def
  py_strip_def py_isspace_def dict_get_def mk_word_def default_generator_def




section \<open>Two words per line\<close>









section \<open>The limits of a line\<close>

lemma dict_get_w_end: "w_end wd \<noteq> None \<Longrightarrow> dict_get (w_end wd) d = wd_end wd"
  by (auto simp: dict_get_def wd_end_def)






section \<open>Absent keys\<close>















section \<open>The span of a line\<close>

text \<open>
  Claim C2. The end of a line is the end of its last word, also when blank words are
  skipped. The code takes the end of the preceding list entry instead: the only kept word
  of this input ends at 1, and its line ends at 6, the end of the blank entry after it.
\<close>

theorem line_end_after_blank:
  "segment_into_lines default_generator [mk_word ''hi'' 0 1, mk_word '' '' 5 6]
     = Inr [\<lparr>l_index = 1, l_start = 0, l_end = 6, l_text = ''hi'', l_words = [''hi'']\<rparr>]
   \<and> included [mk_word ''hi'' 0 1, mk_word '' '' 5 6] = [mk_word ''hi'' 0 1]
   \<and> wd_end (mk_word ''hi'' 0 1) = 1"
  by (simp add: seg_eval stmt_eval)

lemma chunks_append_right:
  "sum_list ns \<le> length xs \<Longrightarrow> chunks ns (xs @ ys) = chunks ns xs"
  by (induction ns arbitrary: xs) auto

lemma chunks_snoc:
  "chunks (ns @ [n]) xs = chunks ns xs @ [take n (drop (sum_list ns) xs)]"
  by (induction ns arbitrary: xs) (auto simp: add.commute)

lemma run_inv_start:
  assumes k: "k \<le> length ws"
  shows "\<exists>st. run g ws k = Inr st \<and> inv_start ws k st"
  using k
proof (rule run_induct)
  show "inv_start ws 0 seg_init"
    by (simp add: inv_start_def inv_groups_def seg_init_def included_def line_sizes_def)
next
  fix j st st'
  assume j: "j < length ws" and run: "run g ws j = Inr st" and ok: "st_ok st"
    and inv: "inv_start ws j st"
    and step: "seg_step g ws st (j, ws ! j) = Inr st'"
  from run_inv_groups [of "Suc j" ws g] j run step
  have g': "inv_groups ws (Suc j) st'" by (auto simp: run_Suc)
  from inv have g0: "inv_groups ws j st" by (simp add: inv_start_def)
  let ?nb = "included (take j ws)"
  let ?sz = "line_sizes (lines st)"
  from inv_groups_count [OF g0] have cnt: "sum_list ?sz + length (current_line st) = length ?nb"
    by (simp add: line_sizes_def)
  from inv have starts: "map l_start (lines st) = map (wd_start \<circ> hd) (chunks ?sz ?nb)"
    and cur: "current_line st = [] \<or> line_start st = Some (wd_start (?nb ! sum_list ?sz))"
    by (simp_all add: inv_start_def)
  from cnt have le: "sum_list ?sz \<le> length ?nb" by simp
  have "map l_start (lines st')
          = map (wd_start \<circ> hd) (chunks (line_sizes (lines st')) (included (take (Suc j) ws)))
      \<and> (current_line st' = []
          \<or> line_start st'
              = Some (wd_start (included (take (Suc j) ws) ! sum_list (line_sizes (lines st')))))"
    using j ok
  proof (cases rule: seg_step_cases [where g = g and wd = "ws ! j"])
    case skip
    with step starts cur j show ?thesis by (auto simp: included_take_Suc)
  next
    case first
    with g0 have e: "lines st = []" "?nb = []" by (auto simp: inv_groups_def)
    with first step j show ?thesis by (auto simp: included_take_Suc line_sizes_def)
  next
    case (break ls)
    from break cur have ls: "ls = wd_start (?nb ! sum_list ?sz)" by simp
    from break(2) cnt have lt: "sum_list ?sz < length ?nb" by (cases "current_line st") auto
    from break step have l': "lines st' = lines st @ [mk_line (length (lines st)) ls
          (dict_get (w_end (ws ! (j - 1))) (ls + 1)) (current_line st)]"
      and c': "current_line st' = [wd_text (ws ! j)]"
      and s': "line_start st' = Some (wd_start (ws ! j))" by auto
    have sz': "line_sizes (lines st') = ?sz @ [length (current_line st)]"
      by (simp add: l' line_sizes_def mk_line_def)
    from cnt have total: "sum_list (?sz @ [length (current_line st)]) = length ?nb" by simp
    have nb': "included (take (Suc j) ws) = ?nb @ [ws ! j]"
      using j break(1) by (simp add: included_take_Suc)
    have hd: "hd (take (length (current_line st)) (drop (sum_list ?sz) ?nb)) = ?nb ! sum_list ?sz"
      using lt break(2) by (simp add: hd_drop_conv_nth)
    have "chunks (line_sizes (lines st')) (included (take (Suc j) ws))
        = chunks ?sz ?nb @ [take (length (current_line st)) (drop (sum_list ?sz) ?nb)]"
      unfolding sz' nb' using total by (simp add: chunks_append_right chunks_snoc)
    with starts hd ls have a: "map l_start (lines st')
          = map (wd_start \<circ> hd) (chunks (line_sizes (lines st')) (included (take (Suc j) ws)))"
      by (simp add: l' mk_line_def)
    from total have "included (take (Suc j) ws) ! sum_list (line_sizes (lines st')) = ws ! j"
      unfolding sz' nb' by (simp add: nth_append)
    with a s' show ?thesis by simp
  next
    case (break0 ls)
    with g0 show ?thesis by (simp add: inv_groups_def)
  next
    case (app ls)
    from app step have l': "lines st' = lines st" by auto
    have nb': "included (take (Suc j) ws) = ?nb @ [ws ! j]"
      using j app(1) by (simp add: included_take_Suc)
    from app(2) cnt have lt: "sum_list ?sz < length ?nb" by (cases "current_line st") auto
    from starts le have a: "map l_start (lines st')
          = map (wd_start \<circ> hd) (chunks (line_sizes (lines st')) (included (take (Suc j) ws)))"
      unfolding l' nb' by (simp add: chunks_append_right)
    from app cur have "line_start st = Some (wd_start (?nb ! sum_list ?sz))" by simp
    with app step lt have b: "line_start st'
        = Some (wd_start (included (take (Suc j) ws) ! sum_list (line_sizes (lines st'))))"
      unfolding l' nb' by (auto simp: nth_append)
    from a b show ?thesis by simp
  qed
  with g' show "inv_start ws (Suc j) st'" by (simp add: inv_start_def)
qed

lemma chunks_last:
  assumes "sum_list ns + n = length xs" and "0 < n"
  shows "last (take n (drop (sum_list ns) xs)) = last xs"
proof -
  from assms have "take n (drop (sum_list ns) xs) = drop (sum_list ns) xs" by simp
  moreover from assms have "drop (sum_list ns) xs \<noteq> []" by simp
  ultimately show ?thesis by simp
qed

lemma included_all: "list_all spoken ws \<Longrightarrow> included (take k ws) = take k ws"
proof -
  assume "list_all spoken ws"
  then have "\<forall>x\<in>set (take k ws). \<not> is_blank x"
    by (auto simp: spoken_def list_all_iff dest: in_set_takeD)
  then show ?thesis
    unfolding included_def by (simp add: filter_id_conv)
qed

lemma run_inv_end:
  assumes sp: "list_all spoken ws"
    and k: "k \<le> length ws"
  shows "\<exists>st. run g ws k = Inr st \<and> inv_end ws k st"
  using k
proof (rule run_induct)
  show "inv_end ws 0 seg_init"
    by (simp add: inv_end_def inv_groups_def seg_init_def included_def line_sizes_def)
next
  fix j st st'
  assume j: "j < length ws" and run: "run g ws j = Inr st" and ok: "st_ok st"
    and inv: "inv_end ws j st"
    and step: "seg_step g ws st (j, ws ! j) = Inr st'"
  from run_inv_groups [of "Suc j" ws g] j run step
  have g': "inv_groups ws (Suc j) st'" by (auto simp: run_Suc)
  from inv have g0: "inv_groups ws j st" by (simp add: inv_end_def)
  let ?sz = "line_sizes (lines st)"
  from inv_groups_count [OF g0] included_all [OF sp, of j] j
  have cnt: "sum_list ?sz + length (current_line st) = j"
    by (simp add: line_sizes_def)
  from inv have ends: "map l_end (lines st) = map (wd_end \<circ> last) (chunks ?sz (take j ws))"
    by (simp add: inv_end_def)
  from sp j have spj: "spoken (ws ! j)" by (simp add: list_all_length)
  have t': "take (Suc j) ws = take j ws @ [ws ! j]"
    using j by (simp add: take_Suc_conv_app_nth)
  have "map l_end (lines st')
          = map (wd_end \<circ> last) (chunks (line_sizes (lines st')) (take (Suc j) ws))"
    using j ok
  proof (cases rule: seg_step_cases [where g = g and wd = "ws ! j"])
    case skip
    with spj show ?thesis by (simp add: spoken_def)
  next
    case first
    with g0 have "lines st = []" by (simp add: inv_groups_def)
    with first step show ?thesis by (auto simp: line_sizes_def)
  next
    case (break ls)
    from sp j break(5) have "spoken (ws ! (j - 1))" by (simp add: list_all_length)
    then have e: "dict_get (w_end (ws ! (j - 1))) (ls + 1) = wd_end (ws ! (j - 1))"
      by (simp add: spoken_def dict_get_w_end)
    from break step have l': "lines st' = lines st @ [mk_line (length (lines st)) ls
          (dict_get (w_end (ws ! (j - 1))) (ls + 1)) (current_line st)]" by auto
    have sz': "line_sizes (lines st') = ?sz @ [length (current_line st)]"
      by (simp add: l' line_sizes_def mk_line_def)
    from cnt j have total: "sum_list ?sz + length (current_line st) = length (take j ws)" by simp
    from break(2) have pos: "0 < length (current_line st)" by simp
    from break(5) j have "take j ws \<noteq> []" by auto
    with break(5) j have lastj: "last (take j ws) = ws ! (j - 1)"
      by (simp add: last_conv_nth)
    from chunks_last [OF total pos] lastj
    have "last (take (length (current_line st)) (drop (sum_list ?sz) (take j ws))) = ws ! (j - 1)"
      by simp
    moreover from total
    have "sum_list (?sz @ [length (current_line st)]) \<le> length (take j ws)" by simp
    then have "chunks (?sz @ [length (current_line st)]) (take j ws @ [ws ! j])
        = chunks (?sz @ [length (current_line st)]) (take j ws)"
      by (rule chunks_append_right)
    then have "chunks (line_sizes (lines st')) (take (Suc j) ws)
        = chunks ?sz (take j ws)
          @ [take (length (current_line st)) (drop (sum_list ?sz) (take j ws))]"
      unfolding sz' t' by (simp only: chunks_snoc)
    ultimately show ?thesis using ends e by (simp add: l' mk_line_def)
  next
    case (break0 ls)
    with g0 show ?thesis by (simp add: inv_groups_def)
  next
    case (app ls)
    from app step have l': "lines st' = lines st" by auto
    from cnt j have "sum_list ?sz \<le> length (take j ws)" by simp
    with ends show ?thesis unfolding l' t' by (simp add: chunks_append_right)
  qed
  with g' show "inv_end ws (Suc j) st'" by (simp add: inv_end_def)
qed

text \<open>
  Every line starts at the start of the first word included in it. When no entry of the
  input is blank and every entry carries its end time, every line ends at the end of the
  last word included in it.
\<close>

theorem line_spans_its_words:
  "(\<exists>ls. segment_into_lines g ws = Inr ls
        \<and> map l_start ls = map (wd_start \<circ> hd) (line_words ls ws))
   \<and> (list_all spoken ws
      \<longrightarrow> (\<exists>ls. segment_into_lines g ws = Inr ls
              \<and> map l_end ls = map (wd_end \<circ> last) (line_words ls ws)))"
proof (cases "ws = []")
  case True
  then show ?thesis by (simp add: segment_into_lines_def line_words_def line_sizes_def)
next
  case False
  from run_inv_start [of "length ws" ws g] obtain st
    where st: "run g ws (length ws) = Inr st" "inv_start ws (length ws) st" by auto
  from run_ok [of "length ws" ws g] st(1) have ok: "st_ok st" by auto
  note res = segment_result [OF False st(1) ok]
  from st(2) have g0: "inv_groups ws (length ws) st" by (simp add: inv_start_def)
  let ?sz = "line_sizes (lines st)"
  let ?n = "length (current_line st)"
  from inv_groups_count [OF g0] have cnt: "sum_list ?sz + ?n = length (included ws)"
    by (simp add: line_sizes_def)
  have sizes: "line_sizes (final_lines ws st) = (if current_line st = [] then ?sz else ?sz @ [?n])"
    by (simp add: final_lines_def line_sizes_def mk_line_def)
  have a: "map l_start (final_lines ws st)
      = map (wd_start \<circ> hd) (line_words (final_lines ws st) ws)"
  proof (cases "current_line st = []")
    case True
    with st(2) show ?thesis
      by (simp add: inv_start_def final_lines_def line_words_def)
  next
    case ne: False
    with st(2) have ls: "line_start st = Some (wd_start (included ws ! sum_list ?sz))"
      by (simp add: inv_start_def)
    from ne cnt have lt: "sum_list ?sz < length (included ws)" by (cases "current_line st") auto
    with ne have "hd (take ?n (drop (sum_list ?sz) (included ws))) = included ws ! sum_list ?sz"
      by (simp add: hd_drop_conv_nth)
    with st(2) ne ls show ?thesis
      unfolding line_words_def sizes
      by (simp add: inv_start_def final_lines_def mk_line_def chunks_snoc)
  qed
  have b: "map l_end (final_lines ws st)
      = map (wd_end \<circ> last) (line_words (final_lines ws st) ws)" if sp: "list_all spoken ws"
  proof -
    from run_inv_end [OF sp, of "length ws" g] st(1)
    have e: "inv_end ws (length ws) st" by auto
    from included_all [OF sp, of "length ws"] have all: "included ws = ws" by simp
    show ?thesis
    proof (cases "current_line st = []")
      case True
      with e all show ?thesis
        by (simp add: inv_end_def final_lines_def line_words_def)
    next
      case ne: False
      from sp False have "spoken (last ws)" by (simp add: list_all_iff)
      then have d: "dict_get (w_end (last ws)) x = wd_end (last ws)" for x
        by (simp add: spoken_def dict_get_w_end)
      from cnt all have total: "sum_list ?sz + ?n = length ws" by simp
      from ne have "0 < ?n" by simp
      from chunks_last [OF total this]
      have "last (take ?n (drop (sum_list ?sz) ws)) = last ws" .
      with e ne all d show ?thesis
        unfolding line_words_def sizes
        by (simp add: inv_end_def final_lines_def mk_line_def chunks_snoc)
    qed
  qed
  from res a b show ?thesis by auto
qed

theorem line_spans_its_words_witness:
  "list_all spoken short_talk
   \<and> (\<exists>ls. segment_into_lines default_generator short_talk = Inr ls
          \<and> map l_start ls = map (wd_start \<circ> hd) (line_words ls short_talk)
          \<and> map l_end ls = map (wd_end \<circ> last) (line_words ls short_talk))"
proof -
  have h: "list_all spoken short_talk"
    by (simp add: short_talk_def spoken_def stmt_eval)
  from line_spans_its_words [of default_generator short_talk] h
  obtain ls ls' where
    "segment_into_lines default_generator short_talk = Inr ls"
    "map l_start ls = map (wd_start \<circ> hd) (line_words ls short_talk)"
    "segment_into_lines default_generator short_talk = Inr ls'"
    "map l_end ls' = map (wd_end \<circ> last) (line_words ls' short_talk)"
    by blast
  with h show ?thesis by auto
qed

section \<open>Timestamps\<close>

declare digits.simps [simp del]






























section \<open>The emitter\<close>

lemma no_words_no_lines: "included ws = [] \<Longrightarrow> segment_into_lines g ws = Inr []"
proof -
  assume e: "included ws = []"
  from segment_total_groups [of g ws] obtain ls where ls:
    "segment_into_lines g ws = Inr ls" "concat (map l_words ls) = map wd_text (included ws)"
    "[] \<notin> set (map l_words ls)" by blast
  from ls(2) e have "\<forall>x\<in>set ls. l_words x = []" by simp
  with ls(3) have "ls = []" by (cases ls) auto
  with ls(1) show ?thesis by simp
qed

text \<open>
  Claim C7. When the segmentation yields no line (in particular for an empty list of words,
  and whenever no word is kept), \<open>generate_all\<close> returns a failure and leaves the disk as it
  was.
\<close>

theorem no_lines_no_files:
  "(segment_into_lines g ws = Inr []
    \<longrightarrow> generate_all g ws output_dir filename_base metadata fs
          = (GenFailed ''No lines generated from transcription'', fs))
   \<and> (included ws = []
    \<longrightarrow> generate_all g ws output_dir filename_base metadata fs
          = (GenFailed ''No lines generated from transcription'', fs))
   \<and> generate_all g [] output_dir filename_base metadata fs
        = (GenFailed ''No lines generated from transcription'', fs)"
proof (intro conjI impI)
  assume "segment_into_lines g ws = Inr []"
  then show "generate_all g ws output_dir filename_base metadata fs
          = (GenFailed ''No lines generated from transcription'', fs)"
    by (simp add: generate_all_def)
next
  assume "included ws = []"
  then have "segment_into_lines g ws = Inr []" by (rule no_words_no_lines)
  then show "generate_all g ws output_dir filename_base metadata fs
          = (GenFailed ''No lines generated from transcription'', fs)"
    by (simp add: generate_all_def)
next
  show "generate_all g [] output_dir filename_base metadata fs
        = (GenFailed ''No lines generated from transcription'', fs)"
    by (simp add: generate_all_def segment_into_lines_empty)
qed

theorem no_lines_no_files_witness:
  "segment_into_lines default_generator only_blank = Inr []
   \<and> included only_blank = []
   \<and> generate_all default_generator only_blank ''subtitles'' ''s1'' None open_fs
        = (GenFailed ''No lines generated from transcription'', open_fs)"
proof -
  have a: "included only_blank = []"
    by (simp add: only_blank_def stmt_eval)
  then have b: "segment_into_lines default_generator only_blank = Inr []"
    by (rule no_words_no_lines)
  from no_lines_no_files [of default_generator only_blank "''subtitles''" "''s1''" None open_fs] a b
  show ?thesis by simp
qed

text \<open>
  Claim C9. In the document of \<open>generate_json\<close>, a key of the metadata of the caller carries
  the value of the caller, also when it is \<open>total_lines\<close>, \<open>total_words\<close> or \<open>duration\<close>; each
  of these three carries the computed value when the caller does not give it.
\<close>

theorem caller_metadata_wins:
  "(dict_get metadata Map.empty key = Some v
    \<longrightarrow> doc_metadata (generate_json ls ws metadata) key = Some v)
   \<and> (dict_get metadata Map.empty ''total_lines'' = None
    \<longrightarrow> doc_metadata (generate_json ls ws metadata) ''total_lines''
          = Some (JInt (int (length ls))))
   \<and> (dict_get metadata Map.empty ''total_words'' = None
    \<longrightarrow> doc_metadata (generate_json ls ws metadata) ''total_words''
          = Some (JInt (int (length ws))))
   \<and> (dict_get metadata Map.empty ''duration'' = None
    \<longrightarrow> doc_metadata (generate_json ls ws metadata) ''duration''
          = Some (JNum (computed_duration ls ws)))"
  by (simp add: generate_json_def computed_duration_def wd_end_def map_add_def Let_def)

theorem caller_metadata_wins_witness:
  "dict_get (Some caller_metadata) Map.empty ''total_lines'' = Some (JInt 99)
   \<and> doc_metadata (generate_json [] see_you_soon (Some caller_metadata)) ''total_lines''
       = Some (JInt 99)
   \<and> dict_get (Some caller_metadata) Map.empty ''total_words'' = None
   \<and> doc_metadata (generate_json [] see_you_soon (Some caller_metadata)) ''total_words''
       = Some (JInt 3)
   \<and> dict_get (Some caller_metadata) Map.empty ''duration'' = None
   \<and> doc_metadata (generate_json [] see_you_soon (Some caller_metadata)) ''duration''
       = Some (JNum 2.4)"
proof -
  have h: "dict_get (Some caller_metadata) Map.empty ''total_lines'' = Some (JInt 99)"
    "dict_get (Some caller_metadata) Map.empty ''total_words'' = None"
    "dict_get (Some caller_metadata) Map.empty ''duration'' = None"
    by (simp_all add: caller_metadata_def dict_get_def)
  have d: "computed_duration [] see_you_soon = 2.4" "length see_you_soon = 3"
    by (simp_all add: computed_duration_def see_you_soon_def wd_end_def mk_word_def dict_get_def)
  from caller_metadata_wins [of "Some caller_metadata" "''total_lines''" "JInt 99" "[]" see_you_soon]
    h d show ?thesis by simp
qed

lemmas job_eval = transcribe_upload_def transcribe_from_url_def broken_transcoder_def
  app_folders_def sample_job_def new_job_state_def open_fs_def failed_with_def cleanup_def
  path_join_def dict_get_def Let_def

section \<open>A failed transcode\<close>

text \<open>
  Claim C8. A job whose transcode fails ends as failed with no later stage attempted and
  its saved upload removed. In \<open>transcribe_upload\<close> the upload stays on disk; the sibling
  \<open>transcribe_from_url\<close> removes it.
\<close>

theorem upload_kept_after_failed_transcode:
  "status (snd (transcribe_upload broken_transcoder app_folders default_generator sample_job
                  new_job_state)) = Failed
   \<and> error_message (snd (transcribe_upload broken_transcoder app_folders default_generator
                  sample_job new_job_state)) = Some ''Invalid data found''
   \<and> error (fst (transcribe_upload broken_transcoder app_folders default_generator sample_job
                  new_job_state)) = Some ''Conversion failed''
   \<and> stages (snd (transcribe_upload broken_transcoder app_folders default_generator sample_job
                  new_job_state)) = [Normalize]
   \<and> files (disk (snd (transcribe_upload broken_transcoder app_folders default_generator
                  sample_job new_job_state))) ''uploads/f1.mp3'' = Some (Media ''not audio'')
   \<and> status (snd (transcribe_from_url broken_transcoder app_folders default_generator
                  ''http://host/a.mp3'' sample_job new_job_state)) = Failed
   \<and> stages (snd (transcribe_from_url broken_transcoder app_folders default_generator
                  ''http://host/a.mp3'' sample_job new_job_state)) = [Normalize]
   \<and> files (disk (snd (transcribe_from_url broken_transcoder app_folders default_generator
                  ''http://host/a.mp3'' sample_job new_job_state))) ''uploads/f1.mp3'' = None"
  by (simp add: job_eval)

text \<open>
  In both handlers a failed transcode ends the job as failed after the one stage. The
  upload handler leaves the saved upload as the transcoder left it; the URL handler removes
  it, if the file may be removed.
\<close>

lemma upload_path_nonempty: "upload_path_of cfg j \<noteq> []"
  by (simp add: upload_path_of_def path_join_def)

theorem failed_transcode_in_both_handlers:
  assumes "convert_to_wav c (upload_path_of cfg j) (wav_path_of cfg j) (saved_upload cfg j st0)
             = (ConvertFailed err, fs)"
  shows "status (snd (transcribe_upload c cfg g j st0)) = Failed
       \<and> stages (snd (transcribe_upload c cfg g j st0)) = stages st0 @ [Normalize]
       \<and> files (disk (snd (transcribe_upload c cfg g j st0))) (upload_path_of cfg j)
           = files fs (upload_path_of cfg j)
       \<and> status (snd (transcribe_from_url c cfg g url j st0)) = Failed
       \<and> stages (snd (transcribe_from_url c cfg g url j st0)) = stages st0 @ [Normalize]
       \<and> files (disk (snd (transcribe_from_url c cfg g url j st0))) (upload_path_of cfg j)
           = (if writable fs (upload_path_of cfg j) then None
              else files fs (upload_path_of cfg j))"
  using assms upload_path_nonempty [of cfg j]
  by (simp add: transcribe_upload_def transcribe_from_url_def failed_with_def cleanup_def
      upload_path_of_def wav_path_of_def saved_upload_def Let_def)

theorem failed_transcode_in_both_handlers_witness:
  "convert_to_wav broken_transcoder (upload_path_of app_folders sample_job)
       (wav_path_of app_folders sample_job) (saved_upload app_folders sample_job new_job_state)
     = (ConvertFailed (Some ''Invalid data found''),
        saved_upload app_folders sample_job new_job_state)
   \<and> stages (snd (transcribe_upload broken_transcoder app_folders default_generator sample_job
                    new_job_state)) = [Normalize]
   \<and> files (disk (snd (transcribe_upload broken_transcoder app_folders default_generator
                    sample_job new_job_state))) (upload_path_of app_folders sample_job)
       = Some (Media ''not audio'')
   \<and> files (disk (snd (transcribe_from_url broken_transcoder app_folders default_generator
                    ''http://host/a.mp3'' sample_job new_job_state)))
         (upload_path_of app_folders sample_job)
       = None"
proof -
  have h: "convert_to_wav broken_transcoder (upload_path_of app_folders sample_job)
       (wav_path_of app_folders sample_job) (saved_upload app_folders sample_job new_job_state)
     = (ConvertFailed (Some ''Invalid data found''),
        saved_upload app_folders sample_job new_job_state)"
    by (simp add: broken_transcoder_def)
  have w: "writable (saved_upload app_folders sample_job new_job_state)
             (upload_path_of app_folders sample_job)"
    "files (saved_upload app_folders sample_job new_job_state)
       (upload_path_of app_folders sample_job) = Some (Media ''not audio'')"
    "stages new_job_state = []"
    by (simp_all add: saved_upload_def new_job_state_def open_fs_def sample_job_def)
  from failed_transcode_in_both_handlers [OF h, of default_generator "''http://host/a.mp3''"] h w
  show ?thesis by simp
qed

end
